theory Spec2Isabelle
  imports Complex_Main "HOL-Library.Multiset" "HOL-Library.Log_Nat"
begin

section \<open>Values of the Python program\<close>

text \<open>
  The program of \<^verbatim>\<open>copilot_metrics.py\<close> works on what \<^verbatim>\<open>json.loads\<close> and
  \<^verbatim>\<open>response.json()\<close> return: \<^verbatim>\<open>None\<close>, booleans, unbounded integers, binary64
  floats, strings, lists and dictionaries with string keys.  A dictionary is an
  association list (Python keeps the insertion order, and the CSV header depends on it);
  a dictionary that Python can build has no key twice.  A \<open>char\<close> stands for one code
  point of a Python \<^verbatim>\<open>str\<close>.
\<close>

datatype pyfloat = Fin rat | PInf | NInf | NaN

datatype json =
    JNull
  | JBool bool
  | JInt int
  | JFloat pyfloat
  | JStr string
  | JArr "json list"
  | JObj "(string \<times> json) list"

datatype py_error =
    TypeError
  | AttributeError
  | ValueError
  | OverflowError
  | ZeroDivisionError
  | ImportError
  | CsvError
  | HTTPError nat
  | RequestException

text \<open>Sequencing of computations that may raise: the first exception wins.\<close>

definition and_then :: "py_error + 'a \<Rightarrow> ('a \<Rightarrow> py_error + 'b) \<Rightarrow> py_error + 'b" where
  "and_then m f = (case m of Inl e \<Rightarrow> Inl e | Inr x \<Rightarrow> f x)"

text \<open>Python's truth value of an object (\<^verbatim>\<open>if x:\<close>).\<close>

fun truthy :: "json \<Rightarrow> bool" where
  "truthy JNull = False"
| "truthy (JBool b) = b"
| "truthy (JInt i) = (i \<noteq> 0)"
| "truthy (JFloat f) = (f \<noteq> Fin 0)"
| "truthy (JStr s) = (s \<noteq> [])"
| "truthy (JArr xs) = (xs \<noteq> [])"
| "truthy (JObj kvs) = (kvs \<noteq> [])"

text \<open>\<^verbatim>\<open>d.get(key, default)\<close>: only a dictionary has the method.\<close>

fun dict_get :: "json \<Rightarrow> string \<Rightarrow> json \<Rightarrow> py_error + json" where
  "dict_get (JObj kvs) k dflt = Inr (case map_of kvs k of None \<Rightarrow> dflt | Some v \<Rightarrow> v)"
| "dict_get _ k dflt = Inl AttributeError"

text \<open>
  \<^verbatim>\<open>x[:10]\<close>: strings and lists can be sliced, nothing else that JSON yields (the
  exception is \<^verbatim>\<open>TypeError\<close>; for a dictionary it is \<^verbatim>\<open>KeyError\<close> from Python 3.12 on,
  which no property below tells apart).
\<close>

fun slice10 :: "json \<Rightarrow> py_error + json" where
  "slice10 (JStr s) = Inr (JStr (take 10 s))"
| "slice10 (JArr xs) = Inr (JArr (take 10 xs))"
| "slice10 _ = Inl TypeError"

text \<open>
  \<^verbatim>\<open>f"{x:<25}"\<close>: a format specification with a width is accepted by strings and
  numbers; \<^verbatim>\<open>None\<close>, lists and dictionaries raise \<^verbatim>\<open>TypeError\<close>.
\<close>

fun format_aligned :: "json \<Rightarrow> py_error + json" where
  "format_aligned JNull = Inl TypeError"
| "format_aligned (JArr xs) = Inl TypeError"
| "format_aligned (JObj kvs) = Inl TypeError"
| "format_aligned v = Inr v"

section \<open>Seat detail view\<close>

text \<open>
  The three statuses that \<^verbatim>\<open>print_seats_detail\<close> prints in the last column:
  the cancellation warning with the first ten characters of the date, the green
  ``Activo'' and the white ``Inactivo''.
\<close>

datatype seat_status = Cancela json | Activo | Inactivo

record seat_row =
  row_login :: json
  row_created :: json
  row_last_activity :: json
  row_status :: seat_status

text \<open>The body of the loop over the seats, up to and including the printed row.\<close>

definition print_seat_row :: "json \<Rightarrow> py_error + seat_row" where
  "print_seat_row seat =
     and_then (dict_get seat ''assignee'' (JObj [])) (\<lambda>assignee.
     and_then (dict_get assignee ''login'' (JStr ''N/A'')) (\<lambda>login.
     and_then (dict_get seat ''created_at'' JNull) (\<lambda>created_at.
     and_then (if truthy created_at
               then and_then (dict_get seat ''created_at'' (JStr '''')) slice10
               else Inr (JStr ''N/A'')) (\<lambda>created.
     and_then (dict_get seat ''last_activity_at'' JNull) (\<lambda>last_activity.
     and_then (if truthy last_activity then slice10 last_activity
               else Inr (JStr ''Sin actividad'')) (\<lambda>last_activity_str.
     and_then (dict_get seat ''pending_cancellation_date'' JNull) (\<lambda>pending.
     and_then (if truthy pending then and_then (slice10 pending) (\<lambda>p. Inr (Cancela p))
               else if truthy last_activity then Inr Activo
               else Inr Inactivo) (\<lambda>status.
     and_then (format_aligned login) (\<lambda>l.
     and_then (format_aligned created) (\<lambda>c.
     and_then (format_aligned last_activity_str) (\<lambda>a.
       Inr \<lparr>row_login = l, row_created = c, row_last_activity = a,
            row_status = status\<rparr>)))))))))))"

text \<open>A timestamp field of a seat as the API sends it: \<^verbatim>\<open>null\<close> (or absent) or a string.\<close>

fun none_or_str :: "json \<Rightarrow> bool" where
  "none_or_str JNull = True"
| "none_or_str (JStr s) = True"
| "none_or_str _ = False"

section \<open>Paginated seat listing\<close>

text \<open>
  Iterating over a value, as \<^verbatim>\<open>list.extend\<close> does: a list gives its elements, a
  string its characters, a dictionary its keys; anything else is not iterable.  For these
  three kinds \<^verbatim>\<open>len\<close> is the number of elements iterated.
\<close>

fun py_iter :: "json \<Rightarrow> py_error + json list" where
  "py_iter (JArr xs) = Inr xs"
| "py_iter (JStr s) = Inr (map (\<lambda>c. JStr [c]) s)"
| "py_iter (JObj kvs) = Inr (map (\<lambda>kv. JStr (fst kv)) kvs)"
| "py_iter _ = Inl TypeError"

definition per_page :: nat where
  "per_page = 50"

text \<open>
  The \<^verbatim>\<open>while True\<close> loop of \<^verbatim>\<open>get_copilot_billing_seats\<close>.  The API is a function
  from the query parameters \<^verbatim>\<open>page\<close> and \<^verbatim>\<open>per_page\<close> to the decoded body, or to the
  exception that \<^verbatim>\<open>requests.get\<close>, \<^verbatim>\<open>raise_for_status\<close> or \<^verbatim>\<open>response.json\<close>
  raises.  Every exception inside the loop is caught and makes the method return
  \<^verbatim>\<open>None\<close> (\<open>JNull\<close>).  The loop need not end (an API that always sends full pages), so
  the result is optional; the list of requests sent is returned with it.
\<close>

partial_function (option) seats_loop ::
  "(nat \<Rightarrow> nat \<Rightarrow> py_error + json) \<Rightarrow> nat \<Rightarrow> json list \<Rightarrow> json \<Rightarrow> (nat \<times> nat) list
     \<Rightarrow> (json \<times> (nat \<times> nat) list) option" where
  "seats_loop api page all_seats total_seats requests =
     (case api page per_page of
        Inl e \<Rightarrow> Some (JNull, requests @ [(page, per_page)])
      | Inr data \<Rightarrow>
          (case (if page = 1 then dict_get data ''total_seats'' (JInt 0) else Inr total_seats) of
             Inl e \<Rightarrow> Some (JNull, requests @ [(page, per_page)])
           | Inr total_seats' \<Rightarrow>
               (case and_then (dict_get data ''seats'' (JArr [])) py_iter of
                  Inl e \<Rightarrow> Some (JNull, requests @ [(page, per_page)])
                | Inr seats \<Rightarrow>
                    if length seats < per_page
                    then Some (JObj [(''total_seats'', total_seats'),
                                     (''seats'', JArr (all_seats @ seats))],
                               requests @ [(page, per_page)])
                    else seats_loop api (page + 1) (all_seats @ seats) total_seats'
                           (requests @ [(page, per_page)]))))"

definition get_copilot_billing_seats ::
  "(nat \<Rightarrow> nat \<Rightarrow> py_error + json) \<Rightarrow> (json \<times> (nat \<times> nat) list) option" where
  "get_copilot_billing_seats api = seats_loop api 1 [] (JInt 0) []"

section \<open>Bulk report fetcher\<close>









section \<open>Numbers\<close>

text \<open>
  Python has unbounded integers and binary64 floats.  A finite float is the rational it
  denotes (the sign of a zero is not kept); \<open>b64_round\<close> rounds a rational to the
  nearest float, ties to the even significand, with subnormals below \<open>2\<^sup>-\<^sup>1\<^sup>0\<^sup>2\<^sup>2\<close> and
  overflow to an infinity from \<open>2\<^sup>1\<^sup>0\<^sup>2\<^sup>4\<close> on.
\<close>

definition pow2 :: "int \<Rightarrow> rat" where
  "pow2 k = (if 0 \<le> k then 2 ^ nat k else 1 / 2 ^ nat (- k))"

text \<open>The exponent \<open>\<lfloor>log\<^sub>2 a\<rfloor>\<close> of a positive rational.\<close>

definition ilog2 :: "rat \<Rightarrow> int" where
  "ilog2 a = (if 1 \<le> a then bitlen \<lfloor>a\<rfloor> - 1 else - bitlen (\<lceil>1 / a\<rceil> - 1))"

definition round_half_even :: "rat \<Rightarrow> int" where
  "round_half_even q =
     (let f = \<lfloor>q\<rfloor>; d = q - of_int f
      in if d < 1 / 2 then f
         else if 1 / 2 < d then f + 1
         else if even f then f else f + 1)"

definition b64_round :: "rat \<Rightarrow> pyfloat" where
  "b64_round q =
     (if q = 0 then Fin 0
      else let a = \<bar>q\<bar>;
               e = max (ilog2 a - 52) (- 1074);
               r = of_int (round_half_even (a / pow2 e)) * pow2 e
           in if 2 ^ 1024 \<le> r then (if 0 < q then PInf else NInf)
              else Fin (if 0 < q then r else - r))"

fun float_add :: "pyfloat \<Rightarrow> pyfloat \<Rightarrow> pyfloat" where
  "float_add NaN _ = NaN"
| "float_add _ NaN = NaN"
| "float_add PInf NInf = NaN"
| "float_add NInf PInf = NaN"
| "float_add PInf _ = PInf"
| "float_add _ PInf = PInf"
| "float_add NInf _ = NInf"
| "float_add _ NInf = NInf"
| "float_add (Fin x) (Fin y) = b64_round (x + y)"

text \<open>Multiplication and division by a positive finite float, as the progress bar uses them.\<close>

fun float_mul :: "pyfloat \<Rightarrow> pyfloat \<Rightarrow> pyfloat" where
  "float_mul NaN _ = NaN"
| "float_mul _ NaN = NaN"
| "float_mul (Fin x) (Fin y) = b64_round (x * y)"
| "float_mul (Fin x) PInf = (if x = 0 then NaN else if 0 < x then PInf else NInf)"
| "float_mul (Fin x) NInf = (if x = 0 then NaN else if 0 < x then NInf else PInf)"
| "float_mul PInf (Fin y) = (if y = 0 then NaN else if 0 < y then PInf else NInf)"
| "float_mul NInf (Fin y) = (if y = 0 then NaN else if 0 < y then NInf else PInf)"
| "float_mul PInf PInf = PInf"
| "float_mul NInf NInf = PInf"
| "float_mul PInf NInf = NInf"
| "float_mul NInf PInf = NInf"

fun float_div :: "pyfloat \<Rightarrow> pyfloat \<Rightarrow> py_error + pyfloat" where
  "float_div (Fin x) (Fin y) = (if y = 0 then Inl ZeroDivisionError else Inr (b64_round (x / y)))"
| "float_div PInf (Fin y) =
     (if y = 0 then Inl ZeroDivisionError else Inr (if 0 < y then PInf else NInf))"
| "float_div NInf (Fin y) =
     (if y = 0 then Inl ZeroDivisionError else Inr (if 0 < y then NInf else PInf))"
| "float_div NaN (Fin y) = (if y = 0 then Inl ZeroDivisionError else Inr NaN)"
| "float_div _ NaN = Inr NaN"
| "float_div NaN _ = Inr NaN"
| "float_div (Fin x) _ = Inr (Fin 0)"
| "float_div _ _ = Inr NaN"

text \<open>
  \<^verbatim>\<open>float(n)\<close> and \<^verbatim>\<open>a / b\<close> on integers are correctly rounded and raise
  \<^verbatim>\<open>OverflowError\<close> instead of returning an infinity.
\<close>

definition int_to_float :: "int \<Rightarrow> py_error + pyfloat" where
  "int_to_float n =
     (case b64_round (of_int n) of Fin r \<Rightarrow> Inr (Fin r) | _ \<Rightarrow> Inl OverflowError)"

definition int_truediv :: "int \<Rightarrow> int \<Rightarrow> py_error + pyfloat" where
  "int_truediv a b =
     (if b = 0 then Inl ZeroDivisionError
      else case b64_round (of_int a / of_int b) of
             Fin r \<Rightarrow> Inr (Fin r)
           | _ \<Rightarrow> Inl OverflowError)"

datatype pynum = PInt int | PFloat pyfloat

text \<open>
  The operand of \<^verbatim>\<open>+=\<close> read from a record: an integer, a boolean (a subclass of
  \<^verbatim>\<open>int\<close>) or a float; adding anything else to a number raises \<^verbatim>\<open>TypeError\<close>.
\<close>

fun to_num :: "json \<Rightarrow> py_error + pynum" where
  "to_num (JInt i) = Inr (PInt i)"
| "to_num (JBool b) = Inr (PInt (if b then 1 else 0))"
| "to_num (JFloat f) = Inr (PFloat f)"
| "to_num _ = Inl TypeError"

fun num_add :: "pynum \<Rightarrow> pynum \<Rightarrow> py_error + pynum" where
  "num_add (PInt a) (PInt b) = Inr (PInt (a + b))"
| "num_add (PInt a) (PFloat g) = and_then (int_to_float a) (\<lambda>f. Inr (PFloat (float_add f g)))"
| "num_add (PFloat f) (PInt b) = and_then (int_to_float b) (\<lambda>g. Inr (PFloat (float_add f g)))"
| "num_add (PFloat f) (PFloat g) = Inr (PFloat (float_add f g))"

section \<open>Metrics aggregator\<close>

text \<open>
  The keys of \<^verbatim>\<open>user_stats\<close>.  Any hashable value can be a key; \<^verbatim>\<open>True\<close>, \<^verbatim>\<open>1\<close> and
  \<^verbatim>\<open>1.0\<close> are the same key, and lists and dictionaries are unhashable.
\<close>

datatype pykey = KNone | KStr string | KInt int | KFloat pyfloat

fun to_key :: "json \<Rightarrow> py_error + pykey" where
  "to_key JNull = Inr KNone"
| "to_key (JStr s) = Inr (KStr s)"
| "to_key (JInt i) = Inr (KInt i)"
| "to_key (JBool b) = Inr (KInt (if b then 1 else 0))"
| "to_key (JFloat (Fin q)) = Inr (if of_int \<lfloor>q\<rfloor> = q then KInt \<lfloor>q\<rfloor> else KFloat (Fin q))"
| "to_key (JFloat f) = Inr (KFloat f)"
| "to_key (JArr xs) = Inl TypeError"
| "to_key (JObj kvs) = Inl TypeError"

record user_stat =
  interactions :: pynum
  code_gen :: pynum
  code_accept :: pynum
  loc_added :: pynum
  loc_suggested :: pynum

definition new_user_stat :: user_stat where
  "new_user_stat = \<lparr>interactions = PInt 0, code_gen = PInt 0, code_accept = PInt 0,
                     loc_added = PInt 0, loc_suggested = PInt 0\<rparr>"

text \<open>
  One turn of the loop over \<^verbatim>\<open>users_metrics["data"]\<close> in \<^verbatim>\<open>print_usage_breakdown\<close>.
  An exception leaves the loop and the function, so the dictionary as it was updated
  before the exception is never seen.
\<close>

definition aggregate_record :: "(pykey \<rightharpoonup> user_stat) \<Rightarrow> json \<Rightarrow> py_error + (pykey \<rightharpoonup> user_stat)" where
  "aggregate_record user_stats record =
     and_then (dict_get record ''user_login'' (JStr '''')) (\<lambda>login.
     and_then (to_key login) (\<lambda>user_login.
       let st = (case user_stats user_login of None \<Rightarrow> new_user_stat | Some s \<Rightarrow> s) in
     and_then (dict_get record ''user_initiated_interaction_count'' (JInt 0)) (\<lambda>v1.
     and_then (and_then (to_num v1) (num_add (interactions st))) (\<lambda>i.
     and_then (dict_get record ''code_generation_activity_count'' (JInt 0)) (\<lambda>v2.
     and_then (and_then (to_num v2) (num_add (code_gen st))) (\<lambda>g.
     and_then (dict_get record ''code_acceptance_activity_count'' (JInt 0)) (\<lambda>v3.
     and_then (and_then (to_num v3) (num_add (code_accept st))) (\<lambda>a.
       Inr (user_stats(user_login \<mapsto>
              st\<lparr>interactions := i, code_gen := g, code_accept := a\<rparr>))))))))))"

fun aggregate_loop :: "(pykey \<rightharpoonup> user_stat) \<Rightarrow> json list \<Rightarrow> py_error + (pykey \<rightharpoonup> user_stat)" where
  "aggregate_loop user_stats [] = Inr user_stats"
| "aggregate_loop user_stats (record # records) =
     and_then (aggregate_record user_stats record) (\<lambda>user_stats'. aggregate_loop user_stats' records)"

definition aggregate :: "json list \<Rightarrow> py_error + (pykey \<rightharpoonup> user_stat)" where
  "aggregate records = aggregate_loop Map.empty records"


text \<open>
  The records for which the aggregation is pure integer arithmetic: each of the three
  counter fields is absent or holds an integer (a boolean counts as one).
\<close>

definition counter_fields :: "string list" where
  "counter_fields = [''user_initiated_interaction_count'', ''code_generation_activity_count'',
                     ''code_acceptance_activity_count'']"

fun is_int_json :: "json \<Rightarrow> bool" where
  "is_int_json (JInt i) = True"
| "is_int_json (JBool b) = True"
| "is_int_json _ = False"

definition int_counters :: "json \<Rightarrow> bool" where
  "int_counters r =
     list_all (\<lambda>f. case dict_get r f (JInt 0) of Inl e \<Rightarrow> True | Inr v \<Rightarrow> is_int_json v)
       counter_fields"

text \<open>
  The aggregation as the specification words it: the key of a record is its
  \<^verbatim>\<open>user_login\<close>, the empty string when there is none; the contribution of a field is
  its integer, and 0 when the field is missing or not a number.
\<close>

definition spec_login :: "json \<Rightarrow> string" where
  "spec_login r = (case dict_get r ''user_login'' (JStr '''') of Inr (JStr s) \<Rightarrow> s | _ \<Rightarrow> '''')"

definition spec_count :: "string \<Rightarrow> json \<Rightarrow> int" where
  "spec_count f r = (case dict_get r f (JInt 0) of Inr (JInt i) \<Rightarrow> i | _ \<Rightarrow> 0)"

definition spec_stat :: "json list \<Rightarrow> string \<Rightarrow> user_stat" where
  "spec_stat records login =
     \<lparr>interactions = PInt (\<Sum>r\<leftarrow>filter (\<lambda>r. spec_login r = login) records.
                         spec_count ''user_initiated_interaction_count'' r),
      code_gen = PInt (\<Sum>r\<leftarrow>filter (\<lambda>r. spec_login r = login) records.
                         spec_count ''code_generation_activity_count'' r),
      code_accept = PInt (\<Sum>r\<leftarrow>filter (\<lambda>r. spec_login r = login) records.
                         spec_count ''code_acceptance_activity_count'' r),
      loc_added = PInt 0, loc_suggested = PInt 0\<rparr>"

text \<open>
  A record of the shape the specification has in mind: a dictionary whose
  \<^verbatim>\<open>user_login\<close> is absent or a string and whose counter fields are absent or integers.
\<close>

fun is_str_json :: "json \<Rightarrow> bool" where
  "is_str_json (JStr s) = True"
| "is_str_json _ = False"

fun is_JInt :: "json \<Rightarrow> bool" where
  "is_JInt (JInt i) = True"
| "is_JInt _ = False"

fun integer_record :: "json \<Rightarrow> bool" where
  "integer_record (JObj kvs) =
     ((case map_of kvs ''user_login'' of None \<Rightarrow> True | Some v \<Rightarrow> is_str_json v) \<and>
      list_all (\<lambda>f. case map_of kvs f of None \<Rightarrow> True | Some v \<Rightarrow> is_JInt v) counter_fields)"
| "integer_record _ = False"

text \<open>\<^verbatim>\<open>user_stats.get(login)\<close> after the aggregation of \<open>records\<close>.\<close>

definition stats_for :: "json list \<Rightarrow> pykey \<Rightarrow> py_error + user_stat option" where
  "stats_for records k = and_then (aggregate records) (\<lambda>user_stats. Inr (user_stats k))"

text \<open>
  Auxiliary notions for the proofs about the aggregator: the key and the integer
  contributions of a record, and dictionaries of integer triples with their image as
  dictionaries of counters.
\<close>

definition key_of :: "json \<Rightarrow> py_error + pykey" where
  "key_of r = and_then (dict_get r ''user_login'' (JStr '''')) to_key"

definition cnt :: "string \<Rightarrow> json \<Rightarrow> int" where
  "cnt f r = (case dict_get r f (JInt 0) of
                Inr (JInt i) \<Rightarrow> i | Inr (JBool b) \<Rightarrow> (if b then 1 else 0) | _ \<Rightarrow> 0)"

definition mk_stat :: "int \<times> int \<times> int \<Rightarrow> user_stat" where
  "mk_stat t = (case t of (a, b, c) \<Rightarrow>
     \<lparr>interactions = PInt a, code_gen = PInt b, code_accept = PInt c,
      loc_added = PInt 0, loc_suggested = PInt 0\<rparr>)"

definition lift_stats :: "(pykey \<rightharpoonup> int \<times> int \<times> int) \<Rightarrow> (pykey \<rightharpoonup> user_stat)" where
  "lift_stats M = (\<lambda>k. map_option mk_stat (M k))"

definition add3 :: "int \<times> int \<times> int \<Rightarrow> int \<times> int \<times> int \<Rightarrow> int \<times> int \<times> int" where
  "add3 s t = (fst s + fst t, fst (snd s) + fst (snd t), snd (snd s) + snd (snd t))"

definition cnt3 :: "json \<Rightarrow> int \<times> int \<times> int" where
  "cnt3 r = (cnt ''user_initiated_interaction_count'' r,
             cnt ''code_generation_activity_count'' r,
             cnt ''code_acceptance_activity_count'' r)"

definition stat_base :: "(pykey \<rightharpoonup> int \<times> int \<times> int) \<Rightarrow> pykey \<Rightarrow> int \<times> int \<times> int" where
  "stat_base M k = (case M k of None \<Rightarrow> (0, 0, 0) | Some t \<Rightarrow> t)"

definition bump_stats :: "(pykey \<rightharpoonup> int \<times> int \<times> int) \<Rightarrow> pykey \<Rightarrow> json \<Rightarrow> (pykey \<rightharpoonup> int \<times> int \<times> int)" where
  "bump_stats M k r = M(k \<mapsto> add3 (stat_base M k) (cnt3 r))"

fun run_int :: "(pykey \<rightharpoonup> int \<times> int \<times> int) \<Rightarrow> json list \<Rightarrow> py_error + (pykey \<rightharpoonup> int \<times> int \<times> int)" where
  "run_int M [] = Inr M"
| "run_int M (r # rs) = and_then (key_of r) (\<lambda>k. run_int (bump_stats M k r) rs)"

definition key_total :: "string \<Rightarrow> pykey \<Rightarrow> json list \<Rightarrow> int" where
  "key_total f k rs = (\<Sum>r\<leftarrow>filter (\<lambda>r. key_of r = Inr k) rs. cnt f r)"

definition key_totals :: "pykey \<Rightarrow> json list \<Rightarrow> int \<times> int \<times> int" where
  "key_totals k rs = (key_total ''user_initiated_interaction_count'' k rs,
                key_total ''code_generation_activity_count'' k rs,
                key_total ''code_acceptance_activity_count'' k rs)"

definition closed_form :: "(pykey \<rightharpoonup> int \<times> int \<times> int) \<Rightarrow> json list \<Rightarrow> (pykey \<rightharpoonup> int \<times> int \<times> int)" where
  "closed_form M rs = (\<lambda>k.
     if M k = None \<and> (\<forall>r \<in> set rs. key_of r \<noteq> Inr k) then None
     else Some (add3 (stat_base M k) (key_totals k rs)))"

section \<open>Report exporter\<close>

subsection \<open>CSV\<close>

text \<open>
  What \<^verbatim>\<open>save_csv\<close> leaves behind: the rows handed to the CSV writer (\<open>None\<close> when the
  file was never opened; a row is the list of the objects in its cells, the header row
  first), whether the no-data warning was printed, and the exception that ended the
  call, if any.  The file is opened before the first row is written, so the rows
  written before an exception stay in the file.
\<close>

record csv_outcome =
  csv_rows :: "json list list option"
  csv_warning :: bool
  csv_raised :: "py_error option"

text \<open>
  \<^verbatim>\<open>csv.DictWriter._dict_to_list\<close> with the default \<^verbatim>\<open>extrasaction="raise"\<close> and
  \<^verbatim>\<open>restval=""\<close>: a key outside the field names raises \<^verbatim>\<open>ValueError\<close>; the cells are
  looked up by field name.
\<close>

definition row_by_key :: "string list \<Rightarrow> (string \<times> json) list \<Rightarrow> json list" where
  "row_by_key fieldnames kvs =
     map (\<lambda>key. case map_of kvs key of None \<Rightarrow> JStr '''' | Some v \<Rightarrow> v) fieldnames"

fun dict_to_list :: "string list \<Rightarrow> json \<Rightarrow> py_error + json list" where
  "dict_to_list fieldnames (JObj kvs) =
     (if \<exists>k \<in> set (map fst kvs). k \<notin> set fieldnames then Inl ValueError
      else Inr (row_by_key fieldnames kvs))"
| "dict_to_list fieldnames _ = Inl AttributeError"

text \<open>A row of the plain \<^verbatim>\<open>csv.writer\<close>: any iterable, else \<^verbatim>\<open>csv.Error\<close>.\<close>

definition plain_row :: "json \<Rightarrow> py_error + json list" where
  "plain_row r = (case py_iter r of Inl e \<Rightarrow> Inl CsvError | Inr cells \<Rightarrow> Inr cells)"

text \<open>\<^verbatim>\<open>writerows\<close>: rows are converted and written one by one.\<close>

fun writerows ::
  "(json \<Rightarrow> py_error + json list) \<Rightarrow> json list \<Rightarrow> json list list
     \<Rightarrow> json list list \<times> py_error option" where
  "writerows conv [] written = (written, None)"
| "writerows conv (r # rs) written =
     (case conv r of
        Inl e \<Rightarrow> (written, Some e)
      | Inr row \<Rightarrow> writerows conv rs (written @ [row]))"

fun save_csv :: "json \<Rightarrow> csv_outcome" where
  "save_csv data =
     (case dict_get data ''data'' (JArr [data]) of
        Inl e \<Rightarrow> \<lparr>csv_rows = None, csv_warning = False, csv_raised = Some e\<rparr>
      | Inr report_data \<Rightarrow>
          if \<not> truthy report_data
          then \<lparr>csv_rows = None, csv_warning = True, csv_raised = None\<rparr>
          else (case report_data of
                  JArr (JObj kvs # rest) \<Rightarrow>
                    (case writerows (dict_to_list (map fst kvs)) (JObj kvs # rest)
                            [map JStr (map fst kvs)] of
                       (rows, exc) \<Rightarrow>
                         \<lparr>csv_rows = Some rows, csv_warning = False, csv_raised = exc\<rparr>)
                | JArr (first # rest) \<Rightarrow>
                    (case writerows plain_row (first # rest) [] of
                       (rows, exc) \<Rightarrow>
                         \<lparr>csv_rows = Some rows, csv_warning = False, csv_raised = exc\<rparr>)
                | _ \<Rightarrow> \<lparr>csv_rows = None, csv_warning = False, csv_raised = None\<rparr>))"

text \<open>The row of a record as the specification words it: its values in its own order.\<close>

definition positional_row :: "(string \<times> json) list \<Rightarrow> json list" where
  "positional_row kvs = map snd kvs"

subsection \<open>Paths\<close>






subsection \<open>Saving a report\<close>













section \<open>Usage breakdown view\<close>

text \<open>Decimal digits, and \<^verbatim>\<open>f"{n:,}"\<close> for an integer.\<close>

definition digit_char :: "nat \<Rightarrow> char" where
  "digit_char d = ''0123456789'' ! d"

fun decimal :: "nat \<Rightarrow> string" where
  "decimal n =
     (if n < 10 then [digit_char n]
      else decimal (n div 10) @ [digit_char (n mod 10)])"

declare decimal.simps [simp del]

fun group3 :: "string \<Rightarrow> string" where
  "group3 (a # b # c # d # rest) = a # b # c # CHR '','' # group3 (d # rest)"
| "group3 s = s"

definition format_thousands :: "int \<Rightarrow> string" where
  "format_thousands n =
     (if n < 0 then ''-'' else []) @ rev (group3 (rev (decimal (nat \<bar>n\<bar>))))"

text \<open>
  \<^verbatim>\<open>f"{x:.1f}"\<close>: the decimal with one digit after the point nearest to the exact value
  of the float, ties to even.
\<close>

fun fixed1 :: "pyfloat \<Rightarrow> string" where
  "fixed1 (Fin q) =
     (let n = round_half_even (\<bar>q\<bar> * 10)
      in (if q < 0 then ''-'' else []) @
         decimal (nat (n div 10)) @ ''.'' @ decimal (nat (n mod 10)))"
| "fixed1 PInf = ''inf''"
| "fixed1 NInf = ''-inf''"
| "fixed1 NaN = ''nan''"

text \<open>\<^verbatim>\<open>x < y\<close> on floats: false as soon as a NaN is involved.\<close>

fun float_lt :: "pyfloat \<Rightarrow> pyfloat \<Rightarrow> bool" where
  "float_lt (Fin x) (Fin y) = (x < y)"
| "float_lt NaN _ = False"
| "float_lt _ NaN = False"
| "float_lt PInf _ = False"
| "float_lt _ NInf = False"
| "float_lt NInf _ = True"
| "float_lt _ PInf = True"

text \<open>\<^verbatim>\<open>int(x)\<close> truncates towards zero and refuses infinities and NaN.\<close>

fun float_to_int :: "pyfloat \<Rightarrow> py_error + int" where
  "float_to_int (Fin q) = Inr (if 0 \<le> q then \<lfloor>q\<rfloor> else \<lceil>q\<rceil>)"
| "float_to_int NaN = Inl ValueError"
| "float_to_int _ = Inl OverflowError"

fun num_positive :: "pynum \<Rightarrow> bool" where
  "num_positive (PInt n) = (0 < n)"
| "num_positive (PFloat f) = float_lt (Fin 0) f"

text \<open>
  The text before \<^verbatim>\<open>/1,000\<close>: the digits of an integer grouped in thousands.  For a
  float Python prints its shortest representation, grouped; the model keeps the float.
\<close>

datatype grouped = Digits string | FloatDigits pyfloat

fun format_grouped :: "pynum \<Rightarrow> grouped" where
  "format_grouped (PInt n) = Digits (format_thousands n)"
| "format_grouped (PFloat f) = FloatDigits f"

text \<open>
  What the loop over the seats prints for one user beyond the table row: the text
  \<^verbatim>\<open>included_str\<close> (without the constant \<^verbatim>\<open>/1,000\<close>), the width of the bar, the bar
  itself (a filled segment is \<open>True\<close>) with the percentage, printed only when the user
  has any request.  The table row printed in between (login, counters, editor) and the
  running totals of the summary are left out: the line below the row is reached only
  when they do not raise.
\<close>

record usage_line =
  included :: grouped
  bar_width :: int
  progress_bar :: "bool list"
  bar_line :: "(bool list \<times> string) option"

definition included_limit :: int where
  "included_limit = 1000"

definition usage_bar :: "pynum \<Rightarrow> py_error + usage_line" where
  "usage_bar total_user_requests =
     and_then (case total_user_requests of
                 PInt n \<Rightarrow> int_truediv n included_limit
               | PFloat f \<Rightarrow> float_div f (Fin (of_int included_limit))) (\<lambda>ratio.
     let scaled = float_mul ratio (Fin 100);
         usage_pct = (if float_lt scaled (Fin 100) then PFloat scaled else PInt 100)
     in and_then (case usage_pct of
                    PInt n \<Rightarrow> int_truediv n 5
                  | PFloat f \<Rightarrow> float_div f (Fin 5)) (\<lambda>fifth.
        and_then (float_to_int fifth) (\<lambda>width.
          let bar = replicate (nat width) True @ replicate (nat (20 - width)) False
          in Inr \<lparr>included = format_grouped total_user_requests,
                  bar_width = width,
                  progress_bar = bar,
                  bar_line =
                    (if num_positive total_user_requests
                     then Some (bar, (case usage_pct of
                                        PInt n \<Rightarrow> fixed1 (b64_round (of_int n))
                                      | PFloat f \<Rightarrow> fixed1 f))
                     else None)\<rparr>)))"

definition usage_line :: "user_stat option \<Rightarrow> py_error + usage_line" where
  "usage_line stats =
     (let interactions = (case stats of None \<Rightarrow> PInt 0 | Some s \<Rightarrow> interactions s);
          code_gen = (case stats of None \<Rightarrow> PInt 0 | Some s \<Rightarrow> code_gen s)
      in and_then (num_add interactions code_gen) usage_bar)"




section \<open>Properties: basic facts\<close>

lemma and_then_Inr [simp]: "and_then (Inr x) f = f x"
  by (simp add: and_then_def)

lemma and_then_Inl [simp]: "and_then (Inl e) f = Inl e"
  by (simp add: and_then_def)

lemma and_then_eq_Inr: "and_then m f = Inr y \<longleftrightarrow> (\<exists>x. m = Inr x \<and> f x = Inr y)"
  by (cases m) simp_all

lemma dict_get_present:
  "dict_get d k JNull = Inr v \<Longrightarrow> truthy v \<Longrightarrow> dict_get d k dflt = Inr v"
  by (cases d) (auto split: option.splits)

section \<open>Properties: seat detail view\<close>

text \<open>
  Whenever a row is printed, its status was chosen by the chain
  \<^verbatim>\<open>if pending / elif last_activity / else\<close>.
\<close>

lemma print_seat_row_status:
  assumes "print_seat_row seat = Inr row"
      and "dict_get seat ''pending_cancellation_date'' JNull = Inr pending"
      and "dict_get seat ''last_activity_at'' JNull = Inr la"
  shows "(truthy pending \<longrightarrow> (\<exists>p. slice10 pending = Inr p \<and> row_status row = Cancela p))
       \<and> (\<not> truthy pending \<longrightarrow> row_status row = (if truthy la then Activo else Inactivo))"
  using assms unfolding print_seat_row_def
  by (auto simp: and_then_eq_Inr split: if_splits)

text \<open>
  Claim C8.  For a seat whose login is a string (or absent) and whose three timestamp
  fields are each absent, \<^verbatim>\<open>null\<close> or a string, the row is printed and its status follows the
  priority: a non-empty pending-cancellation date gives the cancellation status (with
  the first ten characters of the date) whatever the last activity is; without one, the
  status is active exactly when the last-activity timestamp is a non-empty string, and
  inactive otherwise.
\<close>

theorem seat_status_priority:
  assumes "dict_get seat ''assignee'' (JObj []) = Inr assignee"
      and "dict_get assignee ''login'' (JStr ''N/A'') = Inr (JStr login)"
      and "dict_get seat ''created_at'' JNull = Inr created"
      and "dict_get seat ''last_activity_at'' JNull = Inr last_activity"
      and "dict_get seat ''pending_cancellation_date'' JNull = Inr pending"
      and "none_or_str created" and "none_or_str last_activity" and "none_or_str pending"
  shows "\<exists>row. print_seat_row seat = Inr row \<and>
           row_status row =
             (case pending of
                JStr (c # cs) \<Rightarrow> Cancela (JStr (take 10 (c # cs)))
              | _ \<Rightarrow> (case last_activity of JStr (c # cs) \<Rightarrow> Activo | _ \<Rightarrow> Inactivo))"
proof -
  have "\<exists>v. (if truthy created
               then and_then (dict_get seat ''created_at'' (JStr [])) slice10
               else Inr (JStr ''N/A'')) = Inr (JStr v)"
    using assms(6) dict_get_present[OF assms(3)] by (cases created) simp_all
  then obtain cv where cv: "(if truthy created
               then and_then (dict_get seat ''created_at'' (JStr [])) slice10
               else Inr (JStr ''N/A'')) = Inr (JStr cv)" ..
  have "\<exists>v. (if truthy last_activity then slice10 last_activity
               else Inr (JStr ''Sin actividad'')) = Inr (JStr v)"
    using assms(7) by (cases last_activity) simp_all
  then obtain lv where lv: "(if truthy last_activity then slice10 last_activity
               else Inr (JStr ''Sin actividad'')) = Inr (JStr lv)" ..
  have st: "(if truthy pending then and_then (slice10 pending) (\<lambda>p. Inr (Cancela p))
               else if truthy last_activity then Inr Activo
               else Inr Inactivo) = Inr (case pending of
                JStr (c # cs) \<Rightarrow> Cancela (JStr (take 10 (c # cs)))
              | _ \<Rightarrow> (case last_activity of JStr (c # cs) \<Rightarrow> Activo | _ \<Rightarrow> Inactivo))"
    using assms(7,8) by (cases pending; cases last_activity) (simp_all split: list.splits)
  show ?thesis
    unfolding print_seat_row_def
    by (simp add: assms(1-5) cv lv st)
qed

theorem seat_status_priority_witness:
  "\<exists>row. print_seat_row (JObj [(''assignee'', JObj [(''login'', JStr ''octocat'')]),
       (''created_at'', JStr ''2024-01-02T03:04:05Z''),
       (''last_activity_at'', JStr ''2024-05-06T07:08:09Z''),
       (''pending_cancellation_date'', JStr ''2024-07-01'')]) = Inr row
     \<and> row_status row = Cancela (JStr ''2024-07-01'')"
  using seat_status_priority[of "JObj [(''assignee'', JObj [(''login'', JStr ''octocat'')]),
       (''created_at'', JStr ''2024-01-02T03:04:05Z''),
       (''last_activity_at'', JStr ''2024-05-06T07:08:09Z''),
       (''pending_cancellation_date'', JStr ''2024-07-01'')]"
       "JObj [(''login'', JStr ''octocat'')]" "''octocat''"
       "JStr ''2024-01-02T03:04:05Z''" "JStr ''2024-05-06T07:08:09Z''" "JStr ''2024-07-01''"]
  by simp

section \<open>Properties: paginated seat listing\<close>

text \<open>
  The loop started at page \<open>p\<close> on full pages followed by one short page: it asks for
  exactly these pages, appends their seats and stops.
\<close>

lemma seats_loop_run:
  assumes "1 \<le> p" and "ss \<noteq> []"
      and "\<forall>i<length ss. \<exists>d. api (p + i) per_page = Inr d \<and>
             and_then (dict_get d ''seats'' (JArr [])) py_iter = Inr (ss ! i)"
      and "p = 1 \<longrightarrow> (\<exists>d. api 1 per_page = Inr d \<and> dict_get d ''total_seats'' (JInt 0) = Inr tfst)"
      and "\<forall>i<length ss - 1. per_page \<le> length (ss ! i)"
      and "length (last ss) < per_page"
  shows "seats_loop api p seen tot reqs =
           Some (JObj [(''total_seats'', if p = 1 then tfst else tot),
                       (''seats'', JArr (seen @ concat ss))],
                 reqs @ map (\<lambda>i. (p + i, per_page)) [0..<length ss])"
  using assms
proof (induction ss arbitrary: p seen tot reqs)
  case Nil
  then show ?case by simp
next
  case (Cons s ss)
  from Cons.prems(3) obtain d where d: "api p per_page = Inr d"
      "and_then (dict_get d ''seats'' (JArr [])) py_iter = Inr s"
    by fastforce
  have tt: "(if p = 1 then dict_get d ''total_seats'' (JInt 0) else Inr tot)
               = Inr (if p = 1 then tfst else tot)"
    using Cons.prems(4) d(1) by auto
  show ?case
  proof (cases "ss = []")
    case True
    with Cons.prems(6) have "length s < per_page" by simp
    with True d tt show ?thesis
      by (subst seats_loop.simps) simp
  next
    case False
    with Cons.prems(5) have full: "\<not> length s < per_page" by fastforce
    have a: "\<forall>i<length ss. \<exists>d. api (p + 1 + i) per_page = Inr d \<and>
             and_then (dict_get d ''seats'' (JArr [])) py_iter = Inr (ss ! i)"
    proof (intro allI impI)
      fix i assume "i < length ss"
      then have "Suc i < length (s # ss)" by simp
      with Cons.prems(3) have "\<exists>d. api (p + Suc i) per_page = Inr d \<and>
             and_then (dict_get d ''seats'' (JArr [])) py_iter = Inr ((s # ss) ! Suc i)" by blast
      then show "\<exists>d. api (p + 1 + i) per_page = Inr d \<and>
             and_then (dict_get d ''seats'' (JArr [])) py_iter = Inr (ss ! i)" by simp
    qed
    have b: "\<forall>i<length ss - 1. per_page \<le> length (ss ! i)"
    proof (intro allI impI)
      fix i assume "i < length ss - 1"
      then have "Suc i < length (s # ss) - 1" by simp
      with Cons.prems(5) have "per_page \<le> length ((s # ss) ! Suc i)" by blast
      then show "per_page \<le> length (ss ! i)" by simp
    qed
    have c: "length (last ss) < per_page"
      using Cons.prems(6) False by simp
    have n: "p + 1 = 1 \<longrightarrow>
        (\<exists>d. api 1 per_page = Inr d \<and> dict_get d ''total_seats'' (JInt 0) = Inr tfst)"
      using Cons.prems(1) by simp
    have pp: "1 \<le> p + 1" by simp
    have q: "(if p + 1 = 1 then tfst else (if p = 1 then tfst else tot))
               = (if p = 1 then tfst else tot)"
      using Cons.prems(1) by simp
    have ih: "seats_loop api (p + 1) (seen @ s) (if p = 1 then tfst else tot)
                (reqs @ [(p, per_page)]) =
           Some (JObj [(''total_seats'', if p = 1 then tfst else tot),
                       (''seats'', JArr ((seen @ s) @ concat ss))],
                 (reqs @ [(p, per_page)]) @ map (\<lambda>i. (p + 1 + i, per_page)) [0..<length ss])"
      using Cons.IH[OF pp False a n b c, where seen="seen @ s" and tot="if p = 1 then tfst else tot"
          and reqs="reqs @ [(p, per_page)]"]
      unfolding q .
    have m: "map (\<lambda>i. (p + i, per_page)) [0..<length (s # ss)]
           = (p, per_page) # map (\<lambda>i. (p + 1 + i, per_page)) [0..<length ss]"
      by (simp add: upt_conv_Cons map_Suc_upt[symmetric] del: upt_Suc)
    show ?thesis
    proof (cases "p = 1")
      case True
      with tt have "dict_get d ''total_seats'' (JInt 0) = Inr tfst" by simp
      with True d full ih m show ?thesis
        by (subst seats_loop.simps) (simp del: upt_Suc)
    next
      case False
      with d full ih m show ?thesis
        by (subst seats_loop.simps) (simp del: upt_Suc)
    qed
  qed
qed

text \<open>
  Claim C9.  Let the API answer the pages \<open>1, 2, \<dots>, n\<close> with seat lists \<open>ss\<close>, all of
  them with at least 50 entries except the last, which has fewer.  Then the seat
  listing returns: it has sent exactly the requests for pages \<open>1\<close> to \<open>n\<close>, each with
  \<^verbatim>\<open>per_page = 50\<close>, its \<^verbatim>\<open>seats\<close> are the concatenation of all pages' seats, and its
  \<^verbatim>\<open>total_seats\<close> is the field of that name of the first page (0 when absent).
\<close>

theorem seats_pagination:
  assumes "ss \<noteq> []"
      and "\<forall>i<length ss. \<exists>d. api (Suc i) per_page = Inr d \<and>
             and_then (dict_get d ''seats'' (JArr [])) py_iter = Inr (ss ! i)"
      and "\<exists>d. api 1 per_page = Inr d \<and> dict_get d ''total_seats'' (JInt 0) = Inr tot"
      and "\<forall>i<length ss - 1. 50 \<le> length (ss ! i)"
      and "length (last ss) < 50"
  shows "get_copilot_billing_seats api =
           Some (JObj [(''total_seats'', tot), (''seats'', JArr (concat ss))],
                 map (\<lambda>i. (Suc i, 50)) [0..<length ss])"
  unfolding get_copilot_billing_seats_def
  using seats_loop_run[where ss=ss and api=api and p=1 and tfst=tot and seen="[]" and tot="JInt 0" and reqs="[]"] assms
  by (simp add: per_page_def)

theorem seats_pagination_witness:
  "get_copilot_billing_seats
     (\<lambda>page n. if page = 1
        then Inr (JObj [(''total_seats'', JInt 52), (''seats'', JArr (replicate 50 JNull))])
        else Inr (JObj [(''total_seats'', JInt 7), (''seats'', JArr [JNull, JNull])])) =
   Some (JObj [(''total_seats'', JInt 52),
               (''seats'', JArr (concat [replicate 50 JNull, [JNull, JNull]]))],
         [(1, 50), (2, 50)])"
proof -
  let ?api = "\<lambda>page n::nat. if page = (1::nat)
        then Inr (JObj [(''total_seats'', JInt 52), (''seats'', JArr (replicate 50 JNull))])
        else (Inr (JObj [(''total_seats'', JInt 7), (''seats'', JArr [JNull, JNull])]) :: py_error + json)"
  let ?ss = "[replicate 50 JNull, [JNull, JNull]]"
  have a: "?ss \<noteq> []" by simp
  have b: "\<forall>i<length ?ss. \<exists>d. ?api (Suc i) per_page = Inr d \<and>
             and_then (dict_get d ''seats'' (JArr [])) py_iter = Inr (?ss ! i)"
    by (simp add: less_Suc_eq)
  have c: "\<exists>d. ?api 1 per_page = Inr d \<and> dict_get d ''total_seats'' (JInt 0) = Inr (JInt 52)"
    by simp
  have d: "\<forall>i<length ?ss - 1. 50 \<le> length (?ss ! i)" by simp
  have e: "length (last ?ss) < 50" by simp
  show ?thesis
    using seats_pagination[OF a b c d e] by (simp add: numeral_2_eq_2)
qed

section \<open>Properties: bulk report fetcher\<close>










section \<open>Properties: metrics aggregator\<close>

lemma add3_assoc: "add3 (add3 s t) u = add3 s (add3 t u)"
  by (simp add: add3_def)

lemma field_add:
  assumes "is_int_json v"
  shows "and_then (to_num v) (num_add (PInt a)) =
           Inr (PInt (a + (case v of JInt i \<Rightarrow> i | JBool b \<Rightarrow> (if b then 1 else 0) | _ \<Rightarrow> 0)))"
  using assms by (cases v) simp_all

lemma aggregate_record_int:
  assumes "int_counters r"
  shows "aggregate_record (lift_stats M) r =
           and_then (key_of r) (\<lambda>k. Inr (lift_stats (bump_stats M k r)))"
proof (cases r)
  case (JObj kvs)
  define v1 where "v1 = (case map_of kvs ''user_initiated_interaction_count'' of None \<Rightarrow> JInt 0 | Some v \<Rightarrow> v)"
  define v2 where "v2 = (case map_of kvs ''code_generation_activity_count'' of None \<Rightarrow> JInt 0 | Some v \<Rightarrow> v)"
  define v3 where "v3 = (case map_of kvs ''code_acceptance_activity_count'' of None \<Rightarrow> JInt 0 | Some v \<Rightarrow> v)"
  from assms JObj have i: "is_int_json v1" "is_int_json v2" "is_int_json v3"
    by (simp_all add: int_counters_def counter_fields_def v1_def v2_def v3_def)
  have g: "dict_get r ''user_initiated_interaction_count'' (JInt 0) = Inr v1"
      "dict_get r ''code_generation_activity_count'' (JInt 0) = Inr v2"
      "dict_get r ''code_acceptance_activity_count'' (JInt 0) = Inr v3"
    by (simp_all add: JObj v1_def v2_def v3_def)
  show ?thesis
  proof (cases "key_of r")
    case (Inl e)
    then show ?thesis
      by (auto simp: aggregate_record_def key_of_def and_then_def split: sum.splits)
  next
    case (Inr k)
    then obtain l where l: "dict_get r ''user_login'' (JStr '''') = Inr l" "to_key l = Inr k"
      by (auto simp: key_of_def and_then_eq_Inr)
    obtain a b c where abc: "stat_base M k = (a, b, c)"
      by (cases "stat_base M k") auto
    have st: "(case lift_stats M k of None \<Rightarrow> new_user_stat | Some s \<Rightarrow> s) = mk_stat (a, b, c)"
      using abc by (auto simp: lift_stats_def stat_base_def new_user_stat_def mk_stat_def split: option.splits)
    have "aggregate_record (lift_stats M) r =
            Inr ((lift_stats M)(k \<mapsto> mk_stat (a + cnt ''user_initiated_interaction_count'' r,
              b + cnt ''code_generation_activity_count'' r,
              c + cnt ''code_acceptance_activity_count'' r)))"
      unfolding aggregate_record_def l and_then_Inr st Let_def g
      by (simp add: mk_stat_def field_add[OF i(1)] field_add[OF i(2)] field_add[OF i(3)] cnt_def g)
    also have "\<dots> = Inr (lift_stats (bump_stats M k r))"
      by (auto simp: lift_stats_def bump_stats_def abc add3_def cnt3_def fun_eq_iff)
    finally show ?thesis by (simp add: Inr)
  qed
qed (simp_all add: aggregate_record_def key_of_def)

lemma aggregate_loop_int:
  "\<forall>r \<in> set rs. int_counters r \<Longrightarrow>
     aggregate_loop (lift_stats M) rs =
       and_then (run_int M rs) (\<lambda>M'. Inr (lift_stats M'))"
proof (induction rs arbitrary: M)
  case Nil
  show ?case by simp
next
  case (Cons r rs)
  then have r: "int_counters r" and rs: "\<forall>r \<in> set rs. int_counters r" by simp_all
  show ?case
    by (cases "key_of r") (simp_all add: aggregate_record_int[OF r] Cons.IH[OF rs])
qed

lemma key_totals_Cons_same: "key_of r = Inr k \<Longrightarrow> key_totals k (r # rs) = add3 (cnt3 r) (key_totals k rs)"
  by (simp add: key_totals_def key_total_def add3_def cnt3_def)

lemma key_totals_Cons_other: "key_of r \<noteq> Inr k \<Longrightarrow> key_totals k (r # rs) = key_totals k rs"
  by (simp add: key_totals_def key_total_def)

lemma key_totals_Nil: "add3 t (key_totals k []) = t"
  by (simp add: key_totals_def key_total_def add3_def)

lemma closed_form_Nil: "closed_form M [] = M"
proof
  fix k show "closed_form M [] k = M k"
    by (cases "M k") (simp_all add: closed_form_def stat_base_def key_totals_Nil)
qed

lemma closed_form_Cons:
  assumes "key_of r = Inr k"
  shows "closed_form (bump_stats M k r) rs = closed_form M (r # rs)"
proof
  fix j
  show "closed_form (bump_stats M k r) rs j = closed_form M (r # rs) j"
  proof (cases "j = k")
    case True
    have "closed_form (bump_stats M k r) rs k = Some (add3 (add3 (stat_base M k) (cnt3 r)) (key_totals k rs))"
      by (simp add: closed_form_def bump_stats_def stat_base_def)
    moreover have "closed_form M (r # rs) k = Some (add3 (stat_base M k) (key_totals k (r # rs)))"
      using assms by (simp add: closed_form_def)
    ultimately show ?thesis
      using True by (simp add: key_totals_Cons_same[OF assms] add3_assoc)
  next
    case False
    then have n: "key_of r \<noteq> Inr j" using assms by simp
    have b: "bump_stats M k r j = M j" "stat_base (bump_stats M k r) j = stat_base M j"
      using False by (simp_all add: bump_stats_def stat_base_def)
    show ?thesis
      using n by (simp add: closed_form_def b key_totals_Cons_other[OF n])
  qed
qed

lemma run_int_ok:
  "\<forall>r \<in> set rs. \<exists>k. key_of r = Inr k \<Longrightarrow> run_int M rs = Inr (closed_form M rs)"
proof (induction rs arbitrary: M)
  case Nil
  show ?case by (simp add: closed_form_Nil)
next
  case (Cons r rs)
  then obtain k where k: "key_of r = Inr k" by auto
  from Cons.prems have "\<forall>r \<in> set rs. \<exists>k. key_of r = Inr k" by simp
  from Cons.IH[OF this] k show ?case by (simp add: closed_form_Cons)
qed

lemma run_int_err:
  "\<exists>r \<in> set rs. \<exists>e. key_of r = Inl e \<Longrightarrow> \<exists>e. run_int M rs = Inl e"
proof (induction rs arbitrary: M)
  case Nil
  then show ?case by simp
next
  case (Cons r rs)
  show ?case
  proof (cases "key_of r")
    case (Inl e)
    then show ?thesis by simp
  next
    case (Inr k)
    with Cons.prems have "\<exists>r \<in> set rs. \<exists>e. key_of r = Inl e" by auto
    from Cons.IH[OF this] Inr show ?thesis by simp
  qed
qed

lemma key_total_mset: "mset xs = mset ys \<Longrightarrow> key_total f k xs = key_total f k ys"
proof -
  assume "mset xs = mset ys"
  then have "mset (map (cnt f) (filter (\<lambda>r. key_of r = Inr k) xs))
           = mset (map (cnt f) (filter (\<lambda>r. key_of r = Inr k) ys))"
    by simp
  then have "sum_mset (mset (map (cnt f) (filter (\<lambda>r. key_of r = Inr k) xs)))
           = sum_mset (mset (map (cnt f) (filter (\<lambda>r. key_of r = Inr k) ys)))"
    by simp
  then show ?thesis
    unfolding key_total_def sum_mset_sum_list .
qed

lemma closed_form_mset: "mset xs = mset ys \<Longrightarrow> closed_form M xs = closed_form M ys"
proof -
  assume a: "mset xs = mset ys"
  show ?thesis
    unfolding closed_form_def key_totals_def mset_eq_setD[OF a] key_total_mset[OF a] ..
qed

lemma empty_lift_stats: "Map.empty = lift_stats Map.empty"
  by (simp add: lift_stats_def)

text \<open>
  Claim C1, as amended.  When the counter fields of all records are absent or integers,
  the aggregation of a permutation of the records ends the same way: either both raise,
  or both yield the same mapping from logins to counters.
\<close>

theorem aggregate_permutation_invariant:
  assumes "mset xs = mset ys" and "\<forall>r \<in> set xs. int_counters r"
  shows "rel_sum (\<lambda>e e'. True) (=) (aggregate xs) (aggregate ys)"
proof -
  from assms have iy: "\<forall>r \<in> set ys. int_counters r"
    using mset_eq_setD by blast
  have ax: "aggregate xs = and_then (run_int Map.empty xs) (\<lambda>M'. Inr (lift_stats M'))"
    unfolding aggregate_def by (subst empty_lift_stats) (rule aggregate_loop_int[OF assms(2)])
  have ay: "aggregate ys = and_then (run_int Map.empty ys) (\<lambda>M'. Inr (lift_stats M'))"
    unfolding aggregate_def by (subst empty_lift_stats) (rule aggregate_loop_int[OF iy])
  show ?thesis
  proof (cases "\<forall>r \<in> set xs. \<exists>k. key_of r = Inr k")
    case True
    then have "\<forall>r \<in> set ys. \<exists>k. key_of r = Inr k"
      using mset_eq_setD[OF assms(1)] by simp
    with True show ?thesis
      by (simp add: ax ay run_int_ok closed_form_mset[OF assms(1)])
  next
    case False
    then have ex: "\<exists>r \<in> set xs. \<exists>e. key_of r = Inl e"
      by (metis sum.exhaust)
    then have ey: "\<exists>r \<in> set ys. \<exists>e. key_of r = Inl e"
      using mset_eq_setD[OF assms(1)] by simp
    from run_int_err[OF ex, of Map.empty] run_int_err[OF ey, of Map.empty] show ?thesis
      by (auto simp: ax ay)
  qed
qed

lemma integer_record_facts:
  assumes "integer_record r"
  shows "int_counters r" and "key_of r = Inr (KStr (spec_login r))"
    and "cnt3 r = (spec_count ''user_initiated_interaction_count'' r,
                   spec_count ''code_generation_activity_count'' r,
                   spec_count ''code_acceptance_activity_count'' r)"
proof -
  from assms obtain kvs where r: "r = JObj kvs" by (cases r) simp_all
  have f: "\<And>f. (case map_of kvs f of None \<Rightarrow> True | Some v \<Rightarrow> is_JInt v) \<Longrightarrow>
             (\<exists>i. dict_get r f (JInt 0) = Inr (JInt i))"
  proof -
    fix f assume a: "case map_of kvs f of None \<Rightarrow> True | Some v \<Rightarrow> is_JInt v"
    show "\<exists>i. dict_get r f (JInt 0) = Inr (JInt i)"
    proof (cases "map_of kvs f")
      case None
      then show ?thesis by (simp add: r)
    next
      case (Some v)
      with a have "is_JInt v" by simp
      then obtain i where "v = JInt i" by (cases v) simp_all
      with Some show ?thesis by (simp add: r)
    qed
  qed
  from assms r have a: "(case map_of kvs ''user_initiated_interaction_count'' of None \<Rightarrow> True | Some v \<Rightarrow> is_JInt v)"
      "(case map_of kvs ''code_generation_activity_count'' of None \<Rightarrow> True | Some v \<Rightarrow> is_JInt v)"
      "(case map_of kvs ''code_acceptance_activity_count'' of None \<Rightarrow> True | Some v \<Rightarrow> is_JInt v)"
    by (simp_all add: counter_fields_def)
  from f[OF a(1)] f[OF a(2)] f[OF a(3)] obtain i1 i2 i3 where
    i: "dict_get r ''user_initiated_interaction_count'' (JInt 0) = Inr (JInt i1)"
       "dict_get r ''code_generation_activity_count'' (JInt 0) = Inr (JInt i2)"
       "dict_get r ''code_acceptance_activity_count'' (JInt 0) = Inr (JInt i3)"
    by blast
  show "int_counters r"
    by (simp add: int_counters_def counter_fields_def i)
  show "cnt3 r = (spec_count ''user_initiated_interaction_count'' r,
                   spec_count ''code_generation_activity_count'' r,
                   spec_count ''code_acceptance_activity_count'' r)"
    by (simp add: cnt3_def cnt_def spec_count_def i)
  from assms r have l: "case map_of kvs ''user_login'' of None \<Rightarrow> True | Some v \<Rightarrow> is_str_json v"
    by simp
  show "key_of r = Inr (KStr (spec_login r))"
  proof (cases "map_of kvs ''user_login''")
    case None
    then show ?thesis by (simp add: key_of_def spec_login_def r)
  next
    case (Some v)
    with l have "is_str_json v" by simp
    then obtain s where "v = JStr s" by (cases v) simp_all
    with Some show ?thesis by (simp add: key_of_def spec_login_def r)
  qed
qed

lemma key_totals_spec:
  assumes "\<forall>r \<in> set rs. integer_record r"
  shows "key_totals (KStr login) rs =
     ((\<Sum>r\<leftarrow>filter (\<lambda>r. spec_login r = login) rs. spec_count ''user_initiated_interaction_count'' r),
      (\<Sum>r\<leftarrow>filter (\<lambda>r. spec_login r = login) rs. spec_count ''code_generation_activity_count'' r),
      (\<Sum>r\<leftarrow>filter (\<lambda>r. spec_login r = login) rs. spec_count ''code_acceptance_activity_count'' r))"
  using assms
proof (induction rs)
  case Nil
  show ?case by (simp add: key_totals_def key_total_def)
next
  case (Cons r rs)
  then have r: "integer_record r" and rs: "\<forall>r \<in> set rs. integer_record r" by simp_all
  note k = integer_record_facts(2)[OF r] and c = integer_record_facts(3)[OF r]
  show ?case
  proof (cases "spec_login r = login")
    case True
    then have "key_of r = Inr (KStr login)" using k by simp
    from key_totals_Cons_same[OF this] True show ?thesis
      by (simp add: Cons.IH[OF rs] c add3_def)
  next
    case False
    then have "key_of r \<noteq> Inr (KStr login)" using k by simp
    from key_totals_Cons_other[OF this] False show ?thesis
      by (simp add: Cons.IH[OF rs])
  qed
qed

text \<open>
  Claim C2, as amended.  For records that are dictionaries with a string (or no)
  \<^verbatim>\<open>user_login\<close> and integer (or no) counter fields, the aggregation returns, and the
  counters of a login are the sums of the three fields over the records of that login,
  a missing field counting as 0 and a missing login as the empty string; a login
  without a record has no entry.
\<close>

theorem aggregate_sums:
  assumes "\<forall>r \<in> set records. integer_record r"
  shows "\<exists>user_stats. aggregate records = Inr user_stats \<and>
           (\<forall>login. user_stats (KStr login) =
              (if login \<in> spec_login ` set records then Some (spec_stat records login) else None))"
proof -
  from assms have i: "\<forall>r \<in> set records. int_counters r"
    and k: "\<forall>r \<in> set records. \<exists>k. key_of r = Inr k"
    by (auto dest: integer_record_facts)
  have a: "aggregate records = Inr (lift_stats (closed_form Map.empty records))"
    unfolding aggregate_def
    by (subst empty_lift_stats) (simp add: aggregate_loop_int[OF i] run_int_ok[OF k])
  have "lift_stats (closed_form Map.empty records) (KStr login) =
          (if login \<in> spec_login ` set records then Some (spec_stat records login) else None)"
    for login
  proof (cases "login \<in> spec_login ` set records")
    case True
    then obtain r where "r \<in> set records" "spec_login r = login" by auto
    with assms have "\<exists>r \<in> set records. key_of r = Inr (KStr login)"
      using integer_record_facts(2) by blast
    then show ?thesis
      using True
      by (simp add: lift_stats_def closed_form_def stat_base_def key_totals_spec[OF assms] add3_def mk_stat_def
          spec_stat_def)
  next
    case False
    have "\<forall>r \<in> set records. key_of r \<noteq> Inr (KStr login)"
    proof
      fix r assume r: "r \<in> set records"
      with assms have "key_of r = Inr (KStr (spec_login r))"
        using integer_record_facts(2) by blast
      moreover from r False have "spec_login r \<noteq> login" by auto
      ultimately show "key_of r \<noteq> Inr (KStr login)" by simp
    qed
    then show ?thesis
      using False by (simp add: lift_stats_def closed_form_def)
  qed
  with a show ?thesis by blast
qed

theorem aggregate_permutation_invariant_witness:
  "rel_sum (\<lambda>e e'. True) (=)
     (aggregate [JObj [(''user_login'', JStr ''a''), (''user_initiated_interaction_count'', JInt 3)],
                 JObj [(''user_login'', JStr ''b''), (''code_generation_activity_count'', JInt 4)]])
     (aggregate [JObj [(''user_login'', JStr ''b''), (''code_generation_activity_count'', JInt 4)],
                 JObj [(''user_login'', JStr ''a''), (''user_initiated_interaction_count'', JInt 3)]])"
  using aggregate_permutation_invariant[of
     "[JObj [(''user_login'', JStr ''a''), (''user_initiated_interaction_count'', JInt 3)],
       JObj [(''user_login'', JStr ''b''), (''code_generation_activity_count'', JInt 4)]]"
     "[JObj [(''user_login'', JStr ''b''), (''code_generation_activity_count'', JInt 4)],
       JObj [(''user_login'', JStr ''a''), (''user_initiated_interaction_count'', JInt 3)]]"]
  by (simp add: int_counters_def counter_fields_def)

lemma bitlen_numeral_step:
  "bitlen (numeral (Num.Bit0 n)) = bitlen (numeral n) + 1"
  "bitlen (numeral (Num.Bit1 n)) = bitlen (numeral n) + 1"
  "bitlen 1 = 1"
  by (subst compute_bitlen, simp)+

lemma floor_rat_numeral_div: "\<lfloor>(numeral a :: rat) / numeral b\<rfloor> = numeral a div numeral b"
  using floor_divide_of_int_eq[of "numeral a" "numeral b", where ?'a = rat] by simp

lemma ceiling_rat_numeral_div:
  "\<lceil>(numeral a :: rat) / numeral b\<rceil> = - ((- numeral a) div numeral b)"
  using floor_divide_of_int_eq[of "- numeral a" "numeral b", where ?'a = rat]
  by (simp add: ceiling_def)

lemmas b64_eval = b64_round_def ilog2_def bitlen_numeral_step pow2_def round_half_even_def Let_def
  floor_rat_numeral_div ceiling_rat_numeral_div

text \<open>
  Claim C1 as stated fails on floats, whose addition is not associative: the records
  with the counters \<open>1e16, 1, 1\<close> give \<open>1e16\<close> in this order and \<open>1.0000000000000002e16\<close>
  when the float comes last.
\<close>

theorem aggregate_float_order_counterexample:
  "mset [JObj [(''user_initiated_interaction_count'', JFloat (Fin 10000000000000000))],
         JObj [(''user_initiated_interaction_count'', JInt 1)],
         JObj [(''user_initiated_interaction_count'', JInt 1)]]
   = mset [JObj [(''user_initiated_interaction_count'', JInt 1)],
           JObj [(''user_initiated_interaction_count'', JInt 1)],
           JObj [(''user_initiated_interaction_count'', JFloat (Fin 10000000000000000))]]
   \<and> stats_for [JObj [(''user_initiated_interaction_count'', JFloat (Fin 10000000000000000))],
                 JObj [(''user_initiated_interaction_count'', JInt 1)],
                 JObj [(''user_initiated_interaction_count'', JInt 1)]] (KStr [])
       = Inr (Some (new_user_stat\<lparr>interactions := PFloat (Fin 10000000000000000)\<rparr>))
   \<and> stats_for [JObj [(''user_initiated_interaction_count'', JInt 1)],
                 JObj [(''user_initiated_interaction_count'', JInt 1)],
                 JObj [(''user_initiated_interaction_count'', JFloat (Fin 10000000000000000))]] (KStr [])
       = Inr (Some (new_user_stat\<lparr>interactions := PFloat (Fin 10000000000000002)\<rparr>))"
  by (simp add: stats_for_def aggregate_def aggregate_record_def new_user_stat_def int_to_float_def
        b64_eval)

theorem aggregate_sums_witness:
  "\<exists>user_stats.
     aggregate [JObj [(''user_login'', JStr ''a''), (''user_initiated_interaction_count'', JInt 3)],
                JObj [(''code_generation_activity_count'', JInt 4)],
                JObj [(''user_login'', JStr ''a''), (''user_initiated_interaction_count'', JInt 5),
                      (''code_acceptance_activity_count'', JInt 1)]] = Inr user_stats
     \<and> user_stats (KStr ''a'') = Some \<lparr>interactions = PInt 8, code_gen = PInt 0,
          code_accept = PInt 1, loc_added = PInt 0, loc_suggested = PInt 0\<rparr>
     \<and> user_stats (KStr []) = Some \<lparr>interactions = PInt 0, code_gen = PInt 4,
          code_accept = PInt 0, loc_added = PInt 0, loc_suggested = PInt 0\<rparr>
     \<and> user_stats (KStr ''b'') = None"
proof -
  let ?rs = "[JObj [(''user_login'', JStr ''a''), (''user_initiated_interaction_count'', JInt 3)],
                JObj [(''code_generation_activity_count'', JInt 4)],
                JObj [(''user_login'', JStr ''a''), (''user_initiated_interaction_count'', JInt 5),
                      (''code_acceptance_activity_count'', JInt 1)]]"
  have "\<forall>r \<in> set ?rs. integer_record r"
    by (simp add: counter_fields_def)
  from aggregate_sums[OF this] obtain user_stats where
    a: "aggregate ?rs = Inr user_stats" and
    s: "\<And>login. user_stats (KStr login) =
              (if login \<in> spec_login ` set ?rs then Some (spec_stat ?rs login) else None)"
    by blast
  have "user_stats (KStr ''a'') = Some \<lparr>interactions = PInt 8, code_gen = PInt 0,
          code_accept = PInt 1, loc_added = PInt 0, loc_suggested = PInt 0\<rparr>"
    by (simp add: s spec_login_def spec_stat_def spec_count_def)
  moreover have "user_stats (KStr []) = Some \<lparr>interactions = PInt 0, code_gen = PInt 4,
          code_accept = PInt 0, loc_added = PInt 0, loc_suggested = PInt 0\<rparr>"
    by (simp add: s spec_login_def spec_stat_def spec_count_def)
  moreover have "user_stats (KStr ''b'') = None"
    by (simp add: s spec_login_def)
  ultimately show ?thesis using a by blast
qed

text \<open>
  Claim C2 as stated fails on a field that is present and not a number: \<^verbatim>\<open>null\<close> does
  not contribute 0, the addition raises \<^verbatim>\<open>TypeError\<close>.
\<close>

theorem aggregate_non_numeric_counterexample:
  "aggregate [JObj [(''user_login'', JStr ''a''), (''user_initiated_interaction_count'', JNull)]]
     = Inl TypeError
   \<and> spec_count ''user_initiated_interaction_count''
        (JObj [(''user_login'', JStr ''a''), (''user_initiated_interaction_count'', JNull)]) = 0"
  by (simp add: aggregate_def aggregate_record_def spec_count_def)

section \<open>Properties: CSV export\<close>

lemma writerows_ok:
  "\<forall>r \<in> set rs. set (map fst r) \<subseteq> set fieldnames \<Longrightarrow>
     writerows (dict_to_list fieldnames) (map JObj rs) written =
       (written @ map (row_by_key fieldnames) rs, None)"
  by (induction rs arbitrary: written) auto

lemma writerows_stray:
  assumes "\<forall>r \<in> set pre. set (map fst r) \<subseteq> set fieldnames"
      and "\<not> set (map fst bad) \<subseteq> set fieldnames"
  shows "writerows (dict_to_list fieldnames) (map JObj (pre @ bad # post)) written =
           (written @ map (row_by_key fieldnames) pre, Some ValueError)"
  using assms by (induction pre arbitrary: written) auto

lemma row_by_key_own:
  "distinct (map fst kvs) \<Longrightarrow> row_by_key (map fst kvs) kvs = positional_row kvs"
  by (auto simp: row_by_key_def positional_row_def)

text \<open>
  Claim C4, as amended.  When the \<^verbatim>\<open>data\<close> of a payload is a non-empty list of
  dictionaries, the header row is the keys of the first record.  If no later record has
  a key outside the header, every record becomes one row, each cell looked up in the
  record by the header's key (the empty string when the record has no such key): rows
  are aligned to the header, not positional.  The first record with a key outside the
  header raises \<^verbatim>\<open>ValueError\<close>, after the rows before it were written.  The row of the
  first record itself is its values in their own order.
\<close>

theorem csv_rows_follow_header:
  assumes "dict_get data ''data'' (JArr [data]) = Inr (JArr (map JObj (kvs # recs)))"
  shows "((\<forall>r \<in> set recs. set (map fst r) \<subseteq> set (map fst kvs)) \<longrightarrow>
            save_csv data =
              \<lparr>csv_rows = Some (map JStr (map fst kvs) #
                                 map (row_by_key (map fst kvs)) (kvs # recs)),
               csv_warning = False, csv_raised = None\<rparr>)
       \<and> (recs = pre @ bad # post \<and>
          (\<forall>r \<in> set pre. set (map fst r) \<subseteq> set (map fst kvs)) \<and>
          \<not> set (map fst bad) \<subseteq> set (map fst kvs) \<longrightarrow>
            save_csv data =
              \<lparr>csv_rows = Some (map JStr (map fst kvs) #
                                 map (row_by_key (map fst kvs)) (kvs # pre)),
               csv_warning = False, csv_raised = Some ValueError\<rparr>)
       \<and> (distinct (map fst kvs) \<longrightarrow> row_by_key (map fst kvs) kvs = positional_row kvs)"
proof (intro conjI impI)
  assume a: "\<forall>r \<in> set recs. set (map fst r) \<subseteq> set (map fst kvs)"
  then have "\<forall>r \<in> set (kvs # recs). set (map fst r) \<subseteq> set (map fst kvs)" by simp
  from writerows_ok[OF this, of "[map JStr (map fst kvs)]"] assms
  show "save_csv data =
              \<lparr>csv_rows = Some (map JStr (map fst kvs) #
                                 map (row_by_key (map fst kvs)) (kvs # recs)),
               csv_warning = False, csv_raised = None\<rparr>"
    by simp
next
  assume b: "recs = pre @ bad # post \<and>
          (\<forall>r \<in> set pre. set (map fst r) \<subseteq> set (map fst kvs)) \<and>
          \<not> set (map fst bad) \<subseteq> set (map fst kvs)"
  then have p: "\<forall>r \<in> set (kvs # pre). set (map fst r) \<subseteq> set (map fst kvs)"
    and s: "\<not> set (map fst bad) \<subseteq> set (map fst kvs)" by simp_all
  from writerows_stray[OF p s, of post "[map JStr (map fst kvs)]"] assms b
  show "save_csv data =
              \<lparr>csv_rows = Some (map JStr (map fst kvs) #
                                 map (row_by_key (map fst kvs)) (kvs # pre)),
               csv_warning = False, csv_raised = Some ValueError\<rparr>"
    by simp
next
  assume "distinct (map fst kvs)"
  then show "row_by_key (map fst kvs) kvs = positional_row kvs"
    by (rule row_by_key_own)
qed

theorem csv_rows_follow_header_witness:
  "save_csv (JObj [(''data'', JArr [JObj [(''a'', JInt 1), (''b'', JInt 2)],
                                    JObj [(''b'', JInt 3)],
                                    JObj [(''c'', JInt 5)]])]) =
     \<lparr>csv_rows = Some [[JStr ''a'', JStr ''b''], [JInt 1, JInt 2], [JStr [], JInt 3]],
      csv_warning = False, csv_raised = Some ValueError\<rparr>
   \<and> save_csv (JObj [(''data'', JArr [JObj [(''a'', JInt 1), (''b'', JInt 2)],
                                      JObj [(''b'', JInt 3)]])]) =
     \<lparr>csv_rows = Some [[JStr ''a'', JStr ''b''], [JInt 1, JInt 2], [JStr [], JInt 3]],
      csv_warning = False, csv_raised = None\<rparr>"
  using csv_rows_follow_header[where
      data="JObj [(''data'', JArr [JObj [(''a'', JInt 1), (''b'', JInt 2)],
                                    JObj [(''b'', JInt 3)], JObj [(''c'', JInt 5)]])]"
      and kvs="[(''a'', JInt 1), (''b'', JInt 2)]"
      and recs="[[(''b'', JInt 3)], [(''c'', JInt 5)]]"
      and pre="[[(''b'', JInt 3)]]" and bad="[(''c'', JInt 5)]" and post="[]"]
    csv_rows_follow_header[where
      data="JObj [(''data'', JArr [JObj [(''a'', JInt 1), (''b'', JInt 2)],
                                    JObj [(''b'', JInt 3)]])]"
      and kvs="[(''a'', JInt 1), (''b'', JInt 2)]"
      and recs="[[(''b'', JInt 3)]]"]
  by (simp add: row_by_key_def)

text \<open>
  Claim C4 as stated fails: a record with the keys of the header in another order is
  written in the order of the header, not in its own, and a record that lacks the first
  key of the header has its value in the column of its key, after an empty cell, not in
  the first column.
\<close>

theorem csv_positional_counterexample:
  "save_csv (JObj [(''data'', JArr [JObj [(''a'', JInt 1), (''b'', JInt 2)],
                                    JObj [(''b'', JInt 3), (''a'', JInt 4)],
                                    JObj [(''b'', JInt 5)]])]) =
     \<lparr>csv_rows = Some [[JStr ''a'', JStr ''b''], [JInt 1, JInt 2], [JInt 4, JInt 3],
                       [JStr [], JInt 5]],
      csv_warning = False, csv_raised = None\<rparr>
   \<and> positional_row [(''b'', JInt 3), (''a'', JInt 4)] = [JInt 3, JInt 4]
   \<and> positional_row [(''b'', JInt 5)] = [JInt 5]"
  by (simp add: row_by_key_def positional_row_def)

section \<open>Properties: saving a report\<close>






















section \<open>Properties: usage breakdown view\<close>

subsection \<open>Rounding to binary64\<close>




















subsection \<open>The bar of an integer total\<close>













end
